theory Spec2Isabelle
  imports Main "HOL-Library.Word"
begin

section \<open>The dynamic DNS updater of qBittorrent (src/base/net/dnsupdater.cpp)\<close>

text \<open>
  The theory embeds the class \<open>Net::DNSUpdater\<close>: its fields as a record, each member
  function as a function from the object before the call to the object after it.
  What the class does to the outside (messages given to the Logger, requests given to
  the DownloadManager) is appended to two lists kept in the record. \<open>qDebug\<close> and
  \<open>qWarning\<close> output is not modelled. A failing \<open>Q_ASSERT\<close> is the error value
  \<open>AssertionFailed\<close>, as in a debug build, where it ends the process.
\<close>

subsection \<open>Qt strings\<close>

text \<open>
  A \<open>QString\<close> is a sequence of 16-bit code units (\<open>QChar\<close>); \<open>length()\<close> counts code
  units and \<open>==\<close> compares them one by one. \<open>qs\<close> is the literal \<open>u"..."_qs\<close> for ASCII
  text.
\<close>

type_synonym QChar = "16 word"
type_synonym QString = "QChar list"
type_synonym QByteArray = "8 word list"

definition qs :: "string \<Rightarrow> QString" where
  "qs str = map of_char str"

datatype error = AssertionFailed

text \<open>
  \<open>QString::split(sep)\<close> with the default \<open>Qt::KeepEmptyParts\<close>: the parts between the
  separators, empty parts included, so the result always has one part more than the
  string has separators.
\<close>

fun split :: "QChar \<Rightarrow> QString \<Rightarrow> QString list" where
  "split sep [] = [[]]"
| "split sep (c # cs) =
     (if c = sep then [] # split sep cs
      else (case split sep cs of
              [] \<Rightarrow> [[c]]
            | p # ps \<Rightarrow> (c # p) # ps))"

text \<open>\<open>QList::first()\<close> asserts that the list is not empty.\<close>

definition first :: "'a list \<Rightarrow> error + 'a" where
  "first xs = (case xs of [] \<Rightarrow> Inl AssertionFailed | x # _ \<Rightarrow> Inr x)"

subsection \<open>Character classes of the two regular expressions\<close>

text \<open>
  \<open>QRegularExpression\<close> is PCRE2 without \<open>UseUnicodePropertiesOption\<close>: \<open>\d\<close> is
  \<open>[0-9]\<close> and \<open>\s\<close> is space, TAB, LF, VT, FF, CR.
\<close>

definition isDigit :: "QChar \<Rightarrow> bool" where
  "isDigit c = (0x30 \<le> c \<and> c \<le> 0x39)"

definition isAlpha :: "QChar \<Rightarrow> bool" where
  "isAlpha c = ((0x41 \<le> c \<and> c \<le> 0x5A) \<or> (0x61 \<le> c \<and> c \<le> 0x7A))"

definition hyphen :: QChar where "hyphen = 0x2D"
definition dot :: QChar where "dot = 0x2E"
definition space :: QChar where "space = 0x20"
definition LF :: QChar where "LF = 0x0A"
definition TAB :: QChar where "TAB = 0x09"
definition lessThanSign :: QChar where "lessThanSign = 0x3C"

text \<open>The class \<open>[a-zA-Z0-9\-]\<close>.\<close>

definition isLabelChar :: "QChar \<Rightarrow> bool" where
  "isLabelChar c = (isAlpha c \<or> isDigit c \<or> c = hyphen)"

definition isSpace :: "QChar \<Rightarrow> bool" where
  "isSpace c = (c = 0x20 \<or> c = 0x09 \<or> c = 0x0A \<or> c = 0x0B \<or> c = 0x0C \<or> c = 0x0D)"

subsection \<open>The domain pattern\<close>

text \<open>
  \<^verbatim>\<open>^(?:(?!\d|-)[a-zA-Z0-9\-]{1,63}\.)+[a-zA-Z]{2,}$\<close>

  \<open>label_dot\<close> is one round of the group \<^verbatim>\<open>(?!\d|-)[a-zA-Z0-9\-]{1,63}\.\<close> at the head of
  the input: the next character is neither a digit nor a hyphen, the greedy class takes
  the run of label characters, which must be 1 to 63 long and be followed by a dot
  (a shorter take is followed by a label character, never by the dot). It returns
  the input after the dot.
\<close>

definition label_dot :: "QString \<Rightarrow> QString option" where
  "label_dot s =
     (case s of
        [] \<Rightarrow> None
      | c # _ \<Rightarrow>
          if isDigit c \<or> c = hyphen then None
          else
            let l = takeWhile isLabelChar s; r = dropWhile isLabelChar s
            in if 1 \<le> length l \<and> length l \<le> 63 \<and> r \<noteq> [] \<and> hd r = dot
               then Some (tl r) else None)"

text \<open>
  \<^verbatim>\<open>[a-zA-Z]{2,}$\<close>: a run of at least two letters up to the end of the subject. Without
  \<open>MultilineOption\<close> and without PCRE2's dollar-end-only option, which
  \<open>QRegularExpression\<close> does not set, \<^verbatim>\<open>$\<close> holds at the very end of the subject and
  also just before a newline that is its last character; the newline of PCRE2 is the
  line feed unless the library was built otherwise.
\<close>

definition tld_end :: "QString \<Rightarrow> bool" where
  "tld_end s =
     (let t = takeWhile isAlpha s; r = dropWhile isAlpha s
      in 2 \<le> length t \<and> (r = [] \<or> r = [LF]))"

lemma label_dot_shorter: "label_dot s = Some r \<Longrightarrow> length r < length s"
proof -
  assume a: "label_dot s = Some r"
  have "length (dropWhile isLabelChar s) \<le> length s"
    by (rule length_dropWhile_le)
  moreover from a have "dropWhile isLabelChar s \<noteq> []" and "r = tl (dropWhile isLabelChar s)"
    by (auto simp: label_dot_def Let_def split: list.splits if_splits)
  ultimately show ?thesis
    by (cases "dropWhile isLabelChar s") auto
qed

text \<open>
  The group repeated one or more times, then the top-level domain: after each round the
  matcher first tries one more round and, when that fails, the top-level domain.
\<close>

function groups_then_tld :: "QString \<Rightarrow> bool" where
  "groups_then_tld s =
     (case label_dot s of
        None \<Rightarrow> False
      | Some r \<Rightarrow> groups_then_tld r \<or> tld_end r)"
  by pat_completeness auto
termination
  by (relation "measure length") (auto dest: label_dot_shorter)

text \<open>\<open>QRegularExpression(...).match(domain).hasMatch()\<close>; \<^verbatim>\<open>^\<close> fixes the start.\<close>

definition domainRegex_hasMatch :: "QString \<Rightarrow> bool" where
  "domainRegex_hasMatch domain = groups_then_tld domain"

subsection \<open>The pattern of the IP echo page\<close>

text \<open>
  \<^verbatim>\<open>Current IP Address:\s+([^<]+)</body>\<close>, searched from the left.

  \<open>ipRegex_ws j r\<close>: after the literal, \<^verbatim>\<open>\s+\<close> holds the first \<open>j\<close> characters of \<open>r\<close>;
  the group takes the run up to the next \<^verbatim>\<open><\<close>, which must start \<^verbatim>\<open></body>\<close>. On
  failure \<^verbatim>\<open>\s+\<close> gives one character back.
\<close>

fun ipRegex_ws :: "nat \<Rightarrow> QString \<Rightarrow> QString option" where
  "ipRegex_ws 0 r = None"
| "ipRegex_ws (Suc j) r =
     (let rest = drop (Suc j) r;
          cap = takeWhile (\<lambda>c. c \<noteq> lessThanSign) rest;
          after = dropWhile (\<lambda>c. c \<noteq> lessThanSign) rest
      in if cap \<noteq> [] \<and> take 7 after = qs ''</body>'' then Some cap
         else ipRegex_ws j r)"

definition ipRegex_at :: "QString \<Rightarrow> QString option" where
  "ipRegex_at s =
     (let lit = qs ''Current IP Address:''
      in if take (length lit) s = lit
         then (let r = drop (length lit) s
               in ipRegex_ws (length (takeWhile isSpace r)) r)
         else None)"

text \<open>The first capture group of the leftmost match, if there is a match.\<close>

fun ipRegex_captured :: "QString \<Rightarrow> QString option" where
  "ipRegex_captured [] = None"
| "ipRegex_captured (c # cs) =
     (case ipRegex_at (c # cs) of
        Some cap \<Rightarrow> Some cap
      | None \<Rightarrow> ipRegex_captured cs)"

subsection \<open>The object\<close>

text \<open>\<open>DNSUpdater::State\<close>, \<open>DNS::Service\<close> (whose \<open>None\<close> is \<open>NoService\<close> here).\<close>

datatype State = OK | INVALID_CREDS | FATAL

datatype Service = NoService | DynDNS | NoIP

text \<open>
  A \<open>QHostAddress\<close> is null, an IPv4 address or an IPv6 address with its scope id;
  \<open>clear()\<close> makes it null.
\<close>

datatype QHostAddress = Null | IPv4 "32 word" | IPv6 "128 word" QString

text \<open>A \<open>QDateTime\<close>: invalid, or milliseconds since the epoch.\<close>

datatype QDateTime = InvalidDateTime | DateTime int

datatype MsgType = INFO | CRITICAL

text \<open>The messages given to \<open>Logger::addMessage\<close>, named instead of translated.\<close>

datatype Message =
    DnsUpdated            \<comment> \<open>Your dynamic DNS was successfully updated.\<close>
  | ServiceUnavailable    \<comment> \<open>The service is temporarily unavailable, it will be retried in 30 minutes.\<close>
  | HostnameUnknown       \<comment> \<open>hostname supplied does not exist under specified account.\<close>
  | BadAuth               \<comment> \<open>Invalid username/password.\<close>
  | Blacklisted           \<comment> \<open>qBittorrent was blacklisted by the service\<close>
  | NotDonator            \<comment> \<open>!donator was returned by the service\<close>
  | Abuse                 \<comment> \<open>Your username was blocked due to abuse.\<close>
  | DomainInvalid         \<comment> \<open>supplied domain name is invalid.\<close>
  | UsernameTooShort      \<comment> \<open>supplied username is too short.\<close>
  | PasswordTooShort      \<comment> \<open>supplied password is too short.\<close>

text \<open>
  The update URL by its components (\<open>QUrl::toString\<close> and \<open>QHostAddress::toString\<close> are
  Qt's): the query items \<open>hostname\<close> and \<open>myip\<close> are the last two fields.
\<close>

record UpdateUrl =
  scheme :: QString
  userName :: QString
  password :: QString
  host :: QString
  path :: QString
  hostname :: QString
  myip :: QHostAddress

text \<open>
  A request given to the download manager: the GET of \<open>http://checkip.dyndns.org\<close>,
  answered to \<open>ipRequestFinished\<close>, or the GET of the update URL, answered to
  \<open>ipUpdateFinished\<close>.
\<close>

datatype Download = CheckIP | UpdateDNS UpdateUrl

datatype DownloadStatus = Success | RedirectedToMagnet | Failed

record DownloadResult =
  status :: DownloadStatus
  errorString :: QString
  data :: QByteArray

text \<open>The four values \<open>updateCredentials\<close> reads from \<open>Preferences\<close>.\<close>

record Preferences =
  getDynDNSService :: Service
  getDynDomainName :: QString
  getDynDNSUsername :: QString
  getDynDNSPassword :: QString

text \<open>
  The fields of the class; \<open>m_ipCheckTimer\<close> is the timer's \<open>isActive()\<close>. \<open>logger\<close>
  and \<open>downloads\<close> collect the messages and the requests sent so far, oldest first.
\<close>

record DNSUpdater =
  m_state :: State
  m_service :: Service
  m_domain :: QString
  m_username :: QString
  m_password :: QString
  m_lastIP :: QHostAddress
  m_lastIPCheckTime :: QDateTime
  m_ipCheckTimer :: bool
  logger :: "(Message \<times> MsgType) list"
  downloads :: "Download list"

definition addMessage :: "Message \<Rightarrow> MsgType \<Rightarrow> DNSUpdater \<Rightarrow> DNSUpdater" where
  "addMessage msg type s = s\<lparr>logger := logger s @ [(msg, type)]\<rparr>"

subsection \<open>Discovery of the public address\<close>

text \<open>\<open>now\<close> is what \<open>QDateTime::currentDateTime()\<close> returns during the call.\<close>

definition checkPublicIP :: "QDateTime \<Rightarrow> DNSUpdater \<Rightarrow> error + DNSUpdater" where
  "checkPublicIP now s =
     (if m_state s \<noteq> OK then Inl AssertionFailed
      else Inr (s\<lparr>downloads := downloads s @ [CheckIP], m_lastIPCheckTime := now\<rparr>))"

text \<open>The build has OpenSSL, so the scheme is https.\<close>

definition QT_NO_OPENSSL :: bool where
  "QT_NO_OPENSSL = False"

definition getUpdateUrl :: "DNSUpdater \<Rightarrow> error + UpdateUrl" where
  "getUpdateUrl s =
     (if m_lastIP s = Null then Inl AssertionFailed
      else
        (case m_service s of
           DynDNS \<Rightarrow> Inr \<lparr>scheme = (if QT_NO_OPENSSL then qs ''http'' else qs ''https''),
                          userName = m_username s, password = m_password s,
                          host = qs ''members.dyndns.org'', path = qs ''/nic/update'',
                          hostname = m_domain s, myip = m_lastIP s\<rparr>
         | NoIP \<Rightarrow> Inr \<lparr>scheme = (if QT_NO_OPENSSL then qs ''http'' else qs ''https''),
                        userName = m_username s, password = m_password s,
                        host = qs ''dynupdate.no-ip.com'', path = qs ''/nic/update'',
                        hostname = m_domain s, myip = m_lastIP s\<rparr>
         | NoService \<Rightarrow> Inl AssertionFailed))"

definition updateDNSService :: "QDateTime \<Rightarrow> DNSUpdater \<Rightarrow> error + DNSUpdater" where
  "updateDNSService now s =
     (case getUpdateUrl (s\<lparr>m_lastIPCheckTime := now\<rparr>) of
        Inl e \<Rightarrow> Inl e
      | Inr url \<Rightarrow> Inr (s\<lparr>m_lastIPCheckTime := now, downloads := downloads s @ [UpdateDNS url]\<rparr>))"

text \<open>
  \<open>fromUtf8\<close> is \<open>QString::fromUtf8\<close> and \<open>hostAddress\<close> the constructor
  \<open>QHostAddress(const QString &)\<close>, both Qt's and both parameters here.
\<close>

definition ipRequestFinished ::
  "(QByteArray \<Rightarrow> QString) \<Rightarrow> (QString \<Rightarrow> QHostAddress) \<Rightarrow> QDateTime \<Rightarrow>
   DownloadResult \<Rightarrow> DNSUpdater \<Rightarrow> error + DNSUpdater" where
  "ipRequestFinished fromUtf8 hostAddress now result s =
     (if status result \<noteq> Success then Inr s
      else
        (case ipRegex_captured (fromUtf8 (data result)) of
           Some ipStr \<Rightarrow>
             (let newIp = hostAddress ipStr
              in if newIp \<noteq> Null
                 then (if m_lastIP s \<noteq> newIp
                       then updateDNSService now (s\<lparr>m_lastIP := newIp\<rparr>)
                       else Inr s)
                 else Inr s)
         | None \<Rightarrow> Inr s))"

subsection \<open>The reply of the provider\<close>

definition processIPUpdateReply :: "QString \<Rightarrow> DNSUpdater \<Rightarrow> error + DNSUpdater" where
  "processIPUpdateReply reply s =
     (case first (split space reply) of
        Inl e \<Rightarrow> Inl e
      | Inr code \<Rightarrow>
          if code = qs ''good'' \<or> code = qs ''nochg''
          then Inr (addMessage DnsUpdated INFO s)
          else if code = qs ''911'' \<or> code = qs ''dnserr''
          then Inr ((addMessage ServiceUnavailable CRITICAL s)\<lparr>m_lastIP := Null\<rparr>)
          else
            let s = s\<lparr>m_ipCheckTimer := False, m_lastIP := Null\<rparr>
            in if code = qs ''nohost''
               then Inr ((addMessage HostnameUnknown CRITICAL s)\<lparr>m_state := INVALID_CREDS\<rparr>)
               else if code = qs ''badauth''
               then Inr ((addMessage BadAuth CRITICAL s)\<lparr>m_state := INVALID_CREDS\<rparr>)
               else if code = qs ''badagent''
               then Inr ((addMessage Blacklisted CRITICAL s)\<lparr>m_state := FATAL\<rparr>)
               else if code = qs ''!donator''
               then Inr ((addMessage NotDonator CRITICAL s)\<lparr>m_state := FATAL\<rparr>)
               else if code = qs ''abuse''
               then Inr ((addMessage Abuse CRITICAL s)\<lparr>m_state := FATAL\<rparr>)
               else Inr s)"

definition ipUpdateFinished ::
  "(QByteArray \<Rightarrow> QString) \<Rightarrow> DownloadResult \<Rightarrow> DNSUpdater \<Rightarrow> error + DNSUpdater" where
  "ipUpdateFinished fromUtf8 result s =
     (if status result = Success then processIPUpdateReply (fromUtf8 (data result)) s
      else Inr s)"

subsection \<open>New credentials\<close>

text \<open>
  The block that follows each failed validation: the message, \<open>m_lastIP.clear()\<close>,
  \<open>m_ipCheckTimer.stop()\<close>, \<open>m_state = INVALID_CREDS\<close>.
\<close>

definition rejectCredentials :: "Message \<Rightarrow> DNSUpdater \<Rightarrow> DNSUpdater" where
  "rejectCredentials msg s =
     (addMessage msg CRITICAL s)\<lparr>m_lastIP := Null, m_ipCheckTimer := False, m_state := INVALID_CREDS\<rparr>"

text \<open>
  Each \<open>return\<close> of the source is an \<open>Inr\<close> that ends the chain; \<open>c1\<close> to \<open>c4\<close> are the
  values of \<open>change\<close> after the four comparisons. The source stores a differing value
  and then checks the stored field; here the check reads the preference value, which is
  the value just stored.
\<close>

definition updateCredentials :: "Preferences \<Rightarrow> QDateTime \<Rightarrow> DNSUpdater \<Rightarrow> error + DNSUpdater" where
  "updateCredentials pref now s =
     (if m_state s = FATAL then Inr s
      else
        let (s1, c1) =
              (if m_service s \<noteq> getDynDNSService pref
               then (s\<lparr>m_service := getDynDNSService pref\<rparr>, True)
               else (s, False))
        in if m_domain s1 \<noteq> getDynDomainName pref
              \<and> \<not> domainRegex_hasMatch (getDynDomainName pref)
           then Inr (rejectCredentials DomainInvalid (s1\<lparr>m_domain := getDynDomainName pref\<rparr>))
           else
             let (s2, c2) =
                   (if m_domain s1 \<noteq> getDynDomainName pref
                    then (s1\<lparr>m_domain := getDynDomainName pref\<rparr>, True)
                    else (s1, c1))
             in if m_username s2 \<noteq> getDynDNSUsername pref
                   \<and> length (getDynDNSUsername pref) < 4
                then Inr (rejectCredentials UsernameTooShort
                            (s2\<lparr>m_username := getDynDNSUsername pref\<rparr>))
                else
                  let (s3, c3) =
                        (if m_username s2 \<noteq> getDynDNSUsername pref
                         then (s2\<lparr>m_username := getDynDNSUsername pref\<rparr>, True)
                         else (s2, c2))
                  in if m_password s3 \<noteq> getDynDNSPassword pref
                        \<and> length (getDynDNSPassword pref) < 4
                     then Inr (rejectCredentials PasswordTooShort
                                 (s3\<lparr>m_password := getDynDNSPassword pref\<rparr>))
                     else
                       let (s4, c4) =
                             (if m_password s3 \<noteq> getDynDNSPassword pref
                              then (s3\<lparr>m_password := getDynDNSPassword pref\<rparr>, True)
                              else (s3, c3))
                       in if m_state s4 = INVALID_CREDS \<and> c4
                          then checkPublicIP now (s4\<lparr>m_state := OK, m_ipCheckTimer := True\<rparr>)
                          else Inr s4)"

subsection \<open>What the specification names\<close>

text \<open>The codes of the specification's response-code table.\<close>

definition documentedCodes :: "QString list" where
  "documentedCodes =
     map qs [''good'', ''nochg'', ''911'', ''dnserr'', ''nohost'', ''badauth'',
             ''badagent'', ''!donator'', ''abuse'']"

text \<open>
  Follows the specification's words, "the first whitespace-delimited token of the
  response body": the characters up to the first white space, after any leading white
  space.
\<close>

definition first_whitespace_token :: "QString \<Rightarrow> QString" where
  "first_whitespace_token body = takeWhile (\<lambda>c. \<not> isSpace c) (dropWhile isSpace body)"

text \<open>
  Follows the specification's words for the domain: "labels of 1--63 alphanumeric/hyphen
  characters not starting with a digit or hyphen, dot-separated, ending in an alphabetic
  TLD of length at least 2". The string is cut at its dots; the last part is the
  top-level domain, the parts before it, at least one, are the labels.
\<close>

definition isLabel :: "QString \<Rightarrow> bool" where
  "isLabel l = (1 \<le> length l \<and> length l \<le> 63 \<and> list_all isLabelChar l
                \<and> \<not> isDigit (hd l) \<and> hd l \<noteq> hyphen)"

definition isTLD :: "QString \<Rightarrow> bool" where
  "isTLD t = (2 \<le> length t \<and> list_all isAlpha t)"

definition dns_hostname_pattern :: "QString \<Rightarrow> bool" where
  "dns_hostname_pattern d =
     (let parts = split dot d
      in 2 \<le> length parts \<and> list_all isLabel (butlast parts) \<and> isTLD (last parts))"

text \<open>A string of that pattern followed by one line feed.\<close>

definition hostname_then_LF :: "QString \<Rightarrow> bool" where
  "hostname_then_LF d = (d \<noteq> [] \<and> last d = LF \<and> dns_hostname_pattern (butlast d))"

subsection \<open>Objects and inputs for the examples\<close>

definition running :: DNSUpdater where
  "running =
     \<lparr>m_state = OK, m_service = DynDNS, m_domain = qs ''host.example.org'',
      m_username = qs ''alice'', m_password = qs ''secret'',
      m_lastIP = IPv4 0xCB007105, m_lastIPCheckTime = DateTime 0,
      m_ipCheckTimer = True, logger = [], downloads = []\<rparr>"

definition halted :: DNSUpdater where
  "halted =
     \<lparr>m_state = INVALID_CREDS, m_service = DynDNS, m_domain = qs ''host.example.org'',
      m_username = qs ''al'', m_password = qs ''secret'',
      m_lastIP = Null, m_lastIPCheckTime = DateTime 0,
      m_ipCheckTimer = False, logger = [(UsernameTooShort, CRITICAL)], downloads = []\<rparr>"

definition blocked :: DNSUpdater where
  "blocked = running\<lparr>m_state := FATAL, m_lastIP := Null, m_ipCheckTimer := False\<rparr>"

definition storedPrefs :: "DNSUpdater \<Rightarrow> Preferences" where
  "storedPrefs s =
     \<lparr>getDynDNSService = m_service s, getDynDomainName = m_domain s,
      getDynDNSUsername = m_username s, getDynDNSPassword = m_password s\<rparr>"

definition correctedPrefs :: Preferences where
  "correctedPrefs =
     \<lparr>getDynDNSService = NoIP, getDynDomainName = qs ''my-host.example.com'',
      getDynDNSUsername = qs ''alice'', getDynDNSPassword = qs ''secret''\<rparr>"

text \<open>
  The object as the constructor's initialiser list leaves it, when the constructor calls
  \<open>updateCredentials\<close>, and preferences in which no username and no password has been
  entered yet.
\<close>

definition fresh :: DNSUpdater where
  "fresh =
     \<lparr>m_state = OK, m_service = NoService, m_domain = [], m_username = [], m_password = [],
      m_lastIP = Null, m_lastIPCheckTime = InvalidDateTime,
      m_ipCheckTimer = False, logger = [], downloads = []\<rparr>"

definition firstPrefs :: Preferences where
  "firstPrefs =
     \<lparr>getDynDNSService = DynDNS, getDynDomainName = qs ''changeme.dyndns.org'',
      getDynDNSUsername = [], getDynDNSPassword = []\<rparr>"

definition badDomainPrefs :: Preferences where
  "badDomainPrefs = correctedPrefs\<lparr>getDynDomainName := qs ''-bad.example.com'',
                                   getDynDNSUsername := qs ''bob''\<rparr>"

definition passwordOnlyPrefs :: Preferences where
  "passwordOnlyPrefs = (storedPrefs halted)\<lparr>getDynDNSPassword := qs ''secret2''\<rparr>"

definition shortUserPrefs :: Preferences where
  "shortUserPrefs = (storedPrefs running)\<lparr>getDynDNSUsername := qs ''bob''\<rparr>"

definition newlinePrefs :: Preferences where
  "newlinePrefs = (storedPrefs running)\<lparr>getDynDomainName := qs ''my-host.example.com'' @ [LF]\<rparr>"

text \<open>
  For the examples of a discovery: a decoder for ASCII bytes in the place of
  \<open>QString::fromUtf8\<close>, a parser that knows one address in the place of the
  \<open>QHostAddress\<close> constructor, the answer of the echo service, a failed download, and
  the object \<open>running\<close> after it has seen that answer at the time \<open>DateTime 5\<close>.
\<close>

definition utf8 :: "string \<Rightarrow> QByteArray" where
  "utf8 str = map of_char str"

definition asciiFromUtf8 :: "QByteArray \<Rightarrow> QString" where
  "asciiFromUtf8 bytes = map ucast bytes"

definition exampleHostAddress :: "QString \<Rightarrow> QHostAddress" where
  "exampleHostAddress str = (if str = qs ''198.51.100.7'' then IPv4 0xC6336407 else Null)"

definition echoPage :: DownloadResult where
  "echoPage =
     \<lparr>status = Success, errorString = [],
      data = utf8 ''<html><body>Current IP Address: 198.51.100.7</body></html>''\<rparr>"

definition failedDownload :: DownloadResult where
  "failedDownload = \<lparr>status = Failed, errorString = qs ''Connection refused'', data = []\<rparr>"

definition afterDiscovery :: DNSUpdater where
  "afterDiscovery =
     running\<lparr>m_lastIP := IPv4 0xC6336407, m_lastIPCheckTime := DateTime 5,
             downloads :=
               [UpdateDNS \<lparr>scheme = qs ''https'', userName = qs ''alice'',
                           password = qs ''secret'', host = qs ''members.dyndns.org'',
                           path = qs ''/nic/update'', hostname = qs ''host.example.org'',
                           myip = IPv4 0xC6336407\<rparr>]\<rparr>"

section \<open>Properties\<close>

subsection \<open>Splitting the reply\<close>

lemma first_Cons [simp]: "first (x # xs) = Inr x"
  by (simp add: first_def)

lemma split_not_Nil: "split sep xs \<noteq> []"
  by (induction xs) (auto split: list.splits)

lemma hd_split: "hd (split sep xs) = takeWhile (\<lambda>c. c \<noteq> sep) xs"
proof (induction xs)
  case Nil
  show ?case by simp
next
  case (Cons c cs)
  then show ?case
    using split_not_Nil [of sep cs] by (cases "split sep cs") auto
qed

lemma first_split: "first (split sep xs) = Inr (takeWhile (\<lambda>c. c \<noteq> sep) xs)"
  using split_not_Nil [of sep xs] hd_split [of sep xs]
  by (cases "split sep xs") (auto simp: first_def)

subsection \<open>The response codes\<close>

text \<open>
  C1, as the code has it. A reply whose code is none of the nine documented ones
  reaches the statements under the comment "Everything below is an error, stop updating
  until the user updates something": the timer is stopped and the last known address is
  cleared. Only the state is left as it was, and nothing is logged.
\<close>

theorem undocumented_code_stops_polling:
  assumes "first (split space reply) = Inr code"
    and "code \<notin> set documentedCodes"
  shows "processIPUpdateReply reply s = Inr (s\<lparr>m_ipCheckTimer := False, m_lastIP := Null\<rparr>)"
  using assms by (simp add: processIPUpdateReply_def documentedCodes_def)

theorem undocumented_code_stops_polling_witness:
  "first (split space (qs ''unknown'')) = Inr (qs ''unknown'')
   \<and> qs ''unknown'' \<notin> set documentedCodes
   \<and> processIPUpdateReply (qs ''unknown'') running
       = Inr (running\<lparr>m_ipCheckTimer := False, m_lastIP := Null\<rparr>)"
proof -
  have a: "first (split space (qs ''unknown'')) = Inr (qs ''unknown'')"
    by (simp add: qs_def space_def)
  have b: "qs ''unknown'' \<notin> set documentedCodes"
    by (simp add: documentedCodes_def qs_def)
  show ?thesis
    using a b undocumented_code_stops_polling [OF a b, of running] by simp
qed

text \<open>
  C1 as stated fails: the reply \<open>unknown\<close>, received by an updater whose timer runs and
  that knows its address, stops the timer and clears the address.
\<close>

theorem undocumented_code_counterexample:
  "qs ''unknown'' \<notin> set documentedCodes
   \<and> processIPUpdateReply (qs ''unknown'') running
       = Inr (running\<lparr>m_ipCheckTimer := False, m_lastIP := Null\<rparr>)
   \<and> m_ipCheckTimer (running\<lparr>m_ipCheckTimer := False, m_lastIP := Null\<rparr>) \<noteq> m_ipCheckTimer running
   \<and> m_lastIP (running\<lparr>m_ipCheckTimer := False, m_lastIP := Null\<rparr>) \<noteq> m_lastIP running"
  by (simp add: processIPUpdateReply_def first_split documentedCodes_def qs_def space_def
      running_def)

text \<open>
  C2. The codes \<open>nohost\<close> and \<open>badauth\<close> set the state to \<open>INVALID_CREDS\<close>, the codes
  \<open>badagent\<close>, \<open>!donator\<close> and \<open>abuse\<close> set it to \<open>FATAL\<close>; all five stop the timer and
  clear the last known address.
\<close>

theorem credential_and_policy_codes:
  assumes "first (split space reply) = Inr code"
  shows "(code = qs ''nohost'' \<or> code = qs ''badauth'' \<longrightarrow>
            (\<exists>s'. processIPUpdateReply reply s = Inr s' \<and> m_state s' = INVALID_CREDS
                  \<and> \<not> m_ipCheckTimer s' \<and> m_lastIP s' = Null))
       \<and> (code = qs ''badagent'' \<or> code = qs ''!donator'' \<or> code = qs ''abuse'' \<longrightarrow>
            (\<exists>s'. processIPUpdateReply reply s = Inr s' \<and> m_state s' = FATAL
                  \<and> \<not> m_ipCheckTimer s' \<and> m_lastIP s' = Null))"
  using assms by (auto simp: processIPUpdateReply_def addMessage_def qs_def)

theorem credential_and_policy_codes_witness:
  "first (split space (qs ''nohost'')) = Inr (qs ''nohost'')
   \<and> first (split space (qs ''abuse'')) = Inr (qs ''abuse'')
   \<and> (\<exists>s'. processIPUpdateReply (qs ''nohost'') running = Inr s' \<and> m_state s' = INVALID_CREDS
           \<and> \<not> m_ipCheckTimer s' \<and> m_lastIP s' = Null)
   \<and> (\<exists>s'. processIPUpdateReply (qs ''abuse'') running = Inr s' \<and> m_state s' = FATAL
           \<and> \<not> m_ipCheckTimer s' \<and> m_lastIP s' = Null)"
proof -
  have a: "first (split space (qs ''nohost'')) = Inr (qs ''nohost'')"
    by (simp add: qs_def space_def)
  have b: "first (split space (qs ''abuse'')) = Inr (qs ''abuse'')"
    by (simp add: qs_def space_def)
  show ?thesis
    using a b credential_and_policy_codes [OF a, of running]
      credential_and_policy_codes [OF b, of running]
    by simp
qed

text \<open>
  C3. The codes \<open>911\<close> and \<open>dnserr\<close> clear the last known address and log a critical
  message; the state and the timer are as before, so a running timer keeps running.
\<close>

theorem transient_codes:
  assumes "first (split space reply) = Inr code"
    and "code = qs ''911'' \<or> code = qs ''dnserr''"
  shows "\<exists>s'. processIPUpdateReply reply s = Inr s' \<and> m_lastIP s' = Null
            \<and> m_state s' = m_state s \<and> m_ipCheckTimer s' = m_ipCheckTimer s
            \<and> logger s' = logger s @ [(ServiceUnavailable, CRITICAL)]"
  using assms by (auto simp: processIPUpdateReply_def addMessage_def qs_def)

theorem transient_codes_witness:
  "first (split space (qs ''911'')) = Inr (qs ''911'')
   \<and> (\<exists>s'. processIPUpdateReply (qs ''911'') running = Inr s' \<and> m_lastIP s' = Null
           \<and> m_state s' = OK \<and> m_ipCheckTimer s'
           \<and> logger s' = [(ServiceUnavailable, CRITICAL)])"
proof -
  have a: "first (split space (qs ''911'')) = Inr (qs ''911'')"
    by (simp add: qs_def space_def)
  show ?thesis
    using a transient_codes [OF a, of running] by (simp add: running_def)
qed



subsection \<open>New credentials: the course of a call\<close>

text \<open>
  \<open>updateCredentials\<close> without its local variables: an assignment of a value equal to
  the stored one changes nothing, so each return can be written with all the values
  compared so far stored, and \<open>change\<close> is true exactly when one of the four differs.
\<close>

lemma rejectCredentials_fields [simp]:
  "logger (rejectCredentials msg s) = logger s @ [(msg, CRITICAL)]"
  "m_state (rejectCredentials msg s) = INVALID_CREDS"
  "m_lastIP (rejectCredentials msg s) = Null"
  "m_ipCheckTimer (rejectCredentials msg s) = False"
  "m_domain (rejectCredentials msg s) = m_domain s"
  "m_username (rejectCredentials msg s) = m_username s"
  "m_password (rejectCredentials msg s) = m_password s"
  "m_service (rejectCredentials msg s) = m_service s"
  "downloads (rejectCredentials msg s) = downloads s"
  "m_lastIPCheckTime (rejectCredentials msg s) = m_lastIPCheckTime s"
  by (simp_all add: rejectCredentials_def addMessage_def)

lemma updateCredentials_unfold:
  "updateCredentials pref now s =
     (if m_state s = FATAL then Inr s
      else if m_domain s \<noteq> getDynDomainName pref \<and> \<not> domainRegex_hasMatch (getDynDomainName pref)
      then Inr (rejectCredentials DomainInvalid
                  (s\<lparr>m_service := getDynDNSService pref, m_domain := getDynDomainName pref\<rparr>))
      else if m_username s \<noteq> getDynDNSUsername pref \<and> length (getDynDNSUsername pref) < 4
      then Inr (rejectCredentials UsernameTooShort
                  (s\<lparr>m_service := getDynDNSService pref, m_domain := getDynDomainName pref,
                     m_username := getDynDNSUsername pref\<rparr>))
      else if m_password s \<noteq> getDynDNSPassword pref \<and> length (getDynDNSPassword pref) < 4
      then Inr (rejectCredentials PasswordTooShort
                  (s\<lparr>m_service := getDynDNSService pref, m_domain := getDynDomainName pref,
                     m_username := getDynDNSUsername pref, m_password := getDynDNSPassword pref\<rparr>))
      else if m_state s = INVALID_CREDS
              \<and> (getDynDNSService pref \<noteq> m_service s \<or> getDynDomainName pref \<noteq> m_domain s
                   \<or> getDynDNSUsername pref \<noteq> m_username s \<or> getDynDNSPassword pref \<noteq> m_password s)
      then Inr (s\<lparr>m_service := getDynDNSService pref, m_domain := getDynDomainName pref,
                  m_username := getDynDNSUsername pref, m_password := getDynDNSPassword pref,
                  m_state := OK, m_ipCheckTimer := True,
                  downloads := downloads s @ [CheckIP], m_lastIPCheckTime := now\<rparr>)
      else Inr (s\<lparr>m_service := getDynDNSService pref, m_domain := getDynDomainName pref,
                  m_username := getDynDNSUsername pref, m_password := getDynDNSPassword pref\<rparr>))"
  by (cases "getDynDNSService pref = m_service s"; cases "getDynDomainName pref = m_domain s";
      cases "getDynDNSUsername pref = m_username s"; cases "getDynDNSPassword pref = m_password s";
      simp add: updateCredentials_def checkPublicIP_def)


lemma updateCredentials_domain_rejected:
  assumes "m_state s \<noteq> FATAL"
    and "m_domain s \<noteq> getDynDomainName pref"
    and "\<not> domainRegex_hasMatch (getDynDomainName pref)"
  shows "updateCredentials pref now s =
           Inr (rejectCredentials DomainInvalid
                  (s\<lparr>m_service := getDynDNSService pref, m_domain := getDynDomainName pref\<rparr>))"
proof -
  have n1: "(m_state s = FATAL) = False"
    using assms(1) by simp
  have n2: "(m_domain s \<noteq> getDynDomainName pref
             \<and> \<not> domainRegex_hasMatch (getDynDomainName pref)) = True"
    using assms(2,3) by simp
  show ?thesis
    unfolding updateCredentials_unfold n1 n2 if_False if_True by (rule refl)
qed

lemma updateCredentials_username_rejected:
  assumes "m_state s \<noteq> FATAL"
    and "m_domain s \<noteq> getDynDomainName pref \<longrightarrow> domainRegex_hasMatch (getDynDomainName pref)"
    and "m_username s \<noteq> getDynDNSUsername pref"
    and "length (getDynDNSUsername pref) < 4"
  shows "updateCredentials pref now s =
           Inr (rejectCredentials UsernameTooShort
                  (s\<lparr>m_service := getDynDNSService pref, m_domain := getDynDomainName pref,
                     m_username := getDynDNSUsername pref\<rparr>))"
proof -
  have n1: "(m_state s = FATAL) = False"
    using assms(1) by simp
  have n2: "(m_domain s \<noteq> getDynDomainName pref
             \<and> \<not> domainRegex_hasMatch (getDynDomainName pref)) = False"
    using assms(2) by blast
  have n3: "(m_username s \<noteq> getDynDNSUsername pref \<and> length (getDynDNSUsername pref) < 4) = True"
    using assms(3,4) by simp
  show ?thesis
    unfolding updateCredentials_unfold n1 n2 n3 if_False if_True by (rule refl)
qed

lemma updateCredentials_password_rejected:
  assumes "m_state s \<noteq> FATAL"
    and "m_domain s \<noteq> getDynDomainName pref \<longrightarrow> domainRegex_hasMatch (getDynDomainName pref)"
    and "m_username s \<noteq> getDynDNSUsername pref \<longrightarrow> 4 \<le> length (getDynDNSUsername pref)"
    and "m_password s \<noteq> getDynDNSPassword pref"
    and "length (getDynDNSPassword pref) < 4"
  shows "updateCredentials pref now s =
           Inr (rejectCredentials PasswordTooShort
                  (s\<lparr>m_service := getDynDNSService pref, m_domain := getDynDomainName pref,
                     m_username := getDynDNSUsername pref, m_password := getDynDNSPassword pref\<rparr>))"
proof -
  have n1: "(m_state s = FATAL) = False"
    using assms(1) by simp
  have n2: "(m_domain s \<noteq> getDynDomainName pref
             \<and> \<not> domainRegex_hasMatch (getDynDomainName pref)) = False"
    using assms(2) by blast
  have n3: "(m_username s \<noteq> getDynDNSUsername pref \<and> length (getDynDNSUsername pref) < 4) = False"
    using assms(3) by auto
  have n4: "(m_password s \<noteq> getDynDNSPassword pref \<and> length (getDynDNSPassword pref) < 4) = True"
    using assms(4,5) by simp
  show ?thesis
    unfolding updateCredentials_unfold n1 n2 n3 n4 if_False if_True by (rule refl)
qed

lemma updateCredentials_passed:
  assumes "m_state s \<noteq> FATAL"
    and "m_domain s \<noteq> getDynDomainName pref \<longrightarrow> domainRegex_hasMatch (getDynDomainName pref)"
    and "m_username s \<noteq> getDynDNSUsername pref \<longrightarrow> 4 \<le> length (getDynDNSUsername pref)"
    and "m_password s \<noteq> getDynDNSPassword pref \<longrightarrow> 4 \<le> length (getDynDNSPassword pref)"
  shows "updateCredentials pref now s =
           (if m_state s = INVALID_CREDS
               \<and> (getDynDNSService pref \<noteq> m_service s \<or> getDynDomainName pref \<noteq> m_domain s
                    \<or> getDynDNSUsername pref \<noteq> m_username s
                    \<or> getDynDNSPassword pref \<noteq> m_password s)
            then Inr (s\<lparr>m_service := getDynDNSService pref, m_domain := getDynDomainName pref,
                        m_username := getDynDNSUsername pref, m_password := getDynDNSPassword pref,
                        m_state := OK, m_ipCheckTimer := True,
                        downloads := downloads s @ [CheckIP], m_lastIPCheckTime := now\<rparr>)
            else Inr (s\<lparr>m_service := getDynDNSService pref, m_domain := getDynDomainName pref,
                        m_username := getDynDNSUsername pref,
                        m_password := getDynDNSPassword pref\<rparr>))"
proof -
  have n1: "(m_state s = FATAL) = False"
    using assms(1) by simp
  have n2: "(m_domain s \<noteq> getDynDomainName pref
             \<and> \<not> domainRegex_hasMatch (getDynDomainName pref)) = False"
    using assms(2) by blast
  have n3: "(m_username s \<noteq> getDynDNSUsername pref \<and> length (getDynDNSUsername pref) < 4) = False"
    using assms(3) by auto
  have n4: "(m_password s \<noteq> getDynDNSPassword pref \<and> length (getDynDNSPassword pref) < 4) = False"
    using assms(4) by auto
  show ?thesis
    unfolding updateCredentials_unfold n1 n2 n3 n4 if_False by (rule refl)
qed

subsection \<open>New credentials: the calls that change nothing\<close>

text \<open>
  C8. In the state \<open>FATAL\<close> \<open>updateCredentials\<close> returns at once: whatever the
  preferences hold, the object after the call is the object before it, so no field
  changes, nothing is logged or requested, and calling again changes nothing either.
\<close>

theorem fatal_is_absorbing:
  "m_state s = FATAL \<Longrightarrow> updateCredentials pref now s = Inr s"
  by (simp add: updateCredentials_unfold)

theorem fatal_is_absorbing_witness:
  "m_state blocked = FATAL \<and> updateCredentials correctedPrefs (DateTime 5) blocked = Inr blocked"
proof -
  have a: "m_state blocked = FATAL"
    by (simp add: blocked_def)
  show ?thesis
    using a fatal_is_absorbing [OF a, of correctedPrefs "DateTime 5"] by simp
qed

text \<open>
  C10. Outside \<open>FATAL\<close>, a call that finds the four preference values equal to the
  stored ones changes nothing: no comparison opens its block, so nothing is validated
  (the stored values may be ones that validation would refuse), \<open>change\<close> stays false
  and the state \<open>INVALID_CREDS\<close> is not left.
\<close>

theorem unchanged_credentials_change_nothing:
  assumes "m_state s \<noteq> FATAL"
    and "getDynDNSService pref = m_service s"
    and "getDynDomainName pref = m_domain s"
    and "getDynDNSUsername pref = m_username s"
    and "getDynDNSPassword pref = m_password s"
  shows "updateCredentials pref now s = Inr s"
  using assms by (simp add: updateCredentials_unfold)

theorem unchanged_credentials_change_nothing_witness:
  "m_state halted \<noteq> FATAL
   \<and> length (m_username halted) < 4
   \<and> updateCredentials (storedPrefs halted) (DateTime 5) halted = Inr halted"
proof -
  have a: "m_state halted \<noteq> FATAL"
    by (simp add: halted_def)
  have b: "length (m_username halted) < 4"
    by (simp add: halted_def qs_def)
  show ?thesis
    using a b
      unchanged_credentials_change_nothing [OF a, of "storedPrefs halted" "DateTime 5"]
    by (simp add: storedPrefs_def)
qed

subsection \<open>New credentials: leaving \<open>INVALID_CREDS\<close>\<close>

text \<open>
  C7. In the state \<open>INVALID_CREDS\<close>, when at least one of the four values differs from
  the stored one and every differing value passes its check (the domain matches the
  pattern, the username and the password have at least 4 code units), the call stores
  the four values, sets the state to \<open>OK\<close>, starts the timer and calls \<open>checkPublicIP\<close>,
  whose assertion holds: one discovery request is sent and the check time is set. The
  last known address and the log are untouched.
\<close>

theorem corrected_credentials_resume:
  assumes "m_state s = INVALID_CREDS"
    and "m_service s \<noteq> getDynDNSService pref \<or> m_domain s \<noteq> getDynDomainName pref
         \<or> m_username s \<noteq> getDynDNSUsername pref \<or> m_password s \<noteq> getDynDNSPassword pref"
    and "m_domain s \<noteq> getDynDomainName pref \<longrightarrow> domainRegex_hasMatch (getDynDomainName pref)"
    and "m_username s \<noteq> getDynDNSUsername pref \<longrightarrow> 4 \<le> length (getDynDNSUsername pref)"
    and "m_password s \<noteq> getDynDNSPassword pref \<longrightarrow> 4 \<le> length (getDynDNSPassword pref)"
  shows "\<exists>s'. updateCredentials pref now s = Inr s'
            \<and> m_state s' = OK \<and> m_ipCheckTimer s'
            \<and> downloads s' = downloads s @ [CheckIP] \<and> m_lastIPCheckTime s' = now
            \<and> m_service s' = getDynDNSService pref \<and> m_domain s' = getDynDomainName pref
            \<and> m_username s' = getDynDNSUsername pref \<and> m_password s' = getDynDNSPassword pref
            \<and> m_lastIP s' = m_lastIP s \<and> logger s' = logger s"
proof -
  have nf: "m_state s \<noteq> FATAL"
    using assms(1) by simp
  have ch: "m_state s = INVALID_CREDS
            \<and> (getDynDNSService pref \<noteq> m_service s \<or> getDynDomainName pref \<noteq> m_domain s
                 \<or> getDynDNSUsername pref \<noteq> m_username s
                 \<or> getDynDNSPassword pref \<noteq> m_password s)"
    using assms(1,2) by auto
  show ?thesis
    unfolding updateCredentials_passed [OF nf assms(3,4,5)] using ch by simp
qed

theorem corrected_credentials_resume_witness:
  "m_state halted = INVALID_CREDS
   \<and> m_domain halted \<noteq> getDynDomainName correctedPrefs
   \<and> domainRegex_hasMatch (getDynDomainName correctedPrefs)
   \<and> m_username halted \<noteq> getDynDNSUsername correctedPrefs
   \<and> 4 \<le> length (getDynDNSUsername correctedPrefs)
   \<and> m_password halted = getDynDNSPassword correctedPrefs
   \<and> (\<exists>s'. updateCredentials correctedPrefs (DateTime 5) halted = Inr s'
           \<and> m_state s' = OK \<and> m_ipCheckTimer s'
           \<and> downloads s' = [CheckIP] \<and> m_lastIPCheckTime s' = DateTime 5
           \<and> m_domain s' = qs ''my-host.example.com'' \<and> m_username s' = qs ''alice'')"
proof -
  have a: "m_state halted = INVALID_CREDS"
    by (simp add: halted_def)
  have b: "m_domain halted \<noteq> getDynDomainName correctedPrefs"
    by (simp add: halted_def correctedPrefs_def qs_def)
  have c: "domainRegex_hasMatch (getDynDomainName correctedPrefs)"
    by (simp add: correctedPrefs_def domainRegex_hasMatch_def label_dot_def tld_end_def qs_def
        isLabelChar_def isAlpha_def isDigit_def hyphen_def dot_def LF_def)
  have d: "m_username halted \<noteq> getDynDNSUsername correctedPrefs"
    by (simp add: halted_def correctedPrefs_def qs_def)
  have e: "4 \<le> length (getDynDNSUsername correctedPrefs)"
    by (simp add: correctedPrefs_def qs_def)
  have f: "m_password halted = getDynDNSPassword correctedPrefs"
    by (simp add: halted_def correctedPrefs_def)
  have g: "downloads halted = []"
    by (simp add: halted_def)
  have h: "getDynDomainName correctedPrefs = qs ''my-host.example.com''"
    "getDynDNSUsername correctedPrefs = qs ''alice''"
    by (simp_all add: correctedPrefs_def)
  show ?thesis
    using a b c d e f
      corrected_credentials_resume [of halted correctedPrefs "DateTime 5"]
    by (auto simp: g h)
qed

subsection \<open>The domain pattern and the specification's words\<close>

text \<open>
  The matcher accepts the strings of the specification's pattern and, because of
  \<^verbatim>\<open>$\<close>, those strings followed by one line feed; it accepts nothing else.
\<close>

lemma not_label_dot [simp]: "\<not> isLabelChar dot"
  by (simp add: isLabelChar_def isAlpha_def isDigit_def dot_def hyphen_def)

lemma not_alpha_LF [simp]: "\<not> isAlpha LF"
  by (simp add: isAlpha_def LF_def)

lemma not_alpha_dot [simp]: "\<not> isAlpha dot"
  by (simp add: isAlpha_def dot_def)

lemma isLabel_no_dot: "isLabel l \<Longrightarrow> dot \<notin> set l"
  by (auto simp: isLabel_def list_all_iff)

lemma isTLD_no_dot: "isTLD t \<Longrightarrow> dot \<notin> set t"
  by (auto simp: isTLD_def list_all_iff)

lemma label_dot_iff: "label_dot s = Some r \<longleftrightarrow> (\<exists>l. isLabel l \<and> s = l @ dot # r)"
proof
  assume a: "label_dot s = Some r"
  let ?l = "takeWhile isLabelChar s"
  from a have ne: "s \<noteq> []" and first: "\<not> isDigit (hd s)" "hd s \<noteq> hyphen"
    and len: "1 \<le> length ?l" "length ?l \<le> 63"
    and rest: "dropWhile isLabelChar s \<noteq> []" "hd (dropWhile isLabelChar s) = dot"
      "r = tl (dropWhile isLabelChar s)"
    by (auto simp: label_dot_def Let_def split: list.splits if_splits)
  from rest have dw: "dropWhile isLabelChar s = dot # r"
    by (cases "dropWhile isLabelChar s") auto
  have s: "s = ?l @ dot # r"
    using takeWhile_dropWhile_id [of isLabelChar s] dw by simp
  have "hd ?l = hd s"
    using len ne by (cases s) (auto split: if_splits)
  moreover have "list_all isLabelChar ?l"
    by (auto simp: list_all_iff dest: set_takeWhileD)
  ultimately have "isLabel ?l"
    using len first by (simp add: isLabel_def)
  with s show "\<exists>l. isLabel l \<and> s = l @ dot # r" by blast
next
  assume "\<exists>l. isLabel l \<and> s = l @ dot # r"
  then obtain l where l: "isLabel l" and s: "s = l @ dot # r" by blast
  from l have all: "\<And>x. x \<in> set l \<Longrightarrow> isLabelChar x"
    by (simp add: isLabel_def list_all_iff)
  have tw: "takeWhile isLabelChar s = l"
    using all by (simp add: s)
  have dw: "dropWhile isLabelChar s = dot # r"
    using all by (simp add: s)
  from l obtain c cs where lc: "l = c # cs"
    by (cases l) (auto simp: isLabel_def)
  with l have "\<not> isDigit c" "c \<noteq> hyphen" "length l \<le> 63" "1 \<le> length l"
    by (auto simp: isLabel_def)
  then show "label_dot s = Some r"
    unfolding label_dot_def tw dw Let_def using s lc by simp
qed

lemma tld_end_iff: "tld_end s \<longleftrightarrow> isTLD s \<or> (\<exists>t. s = t @ [LF] \<and> isTLD t)"
proof
  assume a: "tld_end s"
  define u where "u = takeWhile isAlpha s"
  define v where "v = dropWhile isAlpha s"
  have s: "s = u @ v"
    by (simp add: u_def v_def)
  have "list_all isAlpha u"
    by (auto simp: u_def list_all_iff dest: set_takeWhileD)
  moreover from a have "2 \<le> length u" and v: "v = [] \<or> v = [LF]"
    by (auto simp: tld_end_def Let_def u_def v_def)
  ultimately have u: "isTLD u"
    by (simp add: isTLD_def)
  from v show "isTLD s \<or> (\<exists>t. s = t @ [LF] \<and> isTLD t)"
  proof
    assume "v = []"
    with s u show ?thesis by simp
  next
    assume "v = [LF]"
    with s u show ?thesis by blast
  qed
next
  assume "isTLD s \<or> (\<exists>t. s = t @ [LF] \<and> isTLD t)"
  then show "tld_end s"
  proof
    assume a: "isTLD s"
    then have all: "\<forall>x\<in>set s. isAlpha x" by (simp add: isTLD_def list_all_iff)
    have tw: "takeWhile isAlpha s = s"
      using all by (rule takeWhile_eq_all_conv [THEN iffD2])
    have dw: "dropWhile isAlpha s = []"
      using all by (rule dropWhile_eq_Nil_conv [THEN iffD2])
    from a have "2 \<le> length s" by (simp add: isTLD_def)
    then show ?thesis unfolding tld_end_def Let_def tw dw by simp
  next
    assume "\<exists>t. s = t @ [LF] \<and> isTLD t"
    then obtain t where s: "s = t @ [LF]" and t: "isTLD t" by blast
    from t have all: "\<And>x. x \<in> set t \<Longrightarrow> isAlpha x" by (simp add: isTLD_def list_all_iff)
    have "takeWhile isAlpha s = t" "dropWhile isAlpha s = [LF]"
      using all by (simp_all add: s)
    with t show ?thesis by (simp add: tld_end_def isTLD_def)
  qed
qed

lemma split_at_sep: "sep \<notin> set l \<Longrightarrow> split sep (l @ sep # r) = l # split sep r"
  by (induction l) auto

lemma split_no_sep: "sep \<notin> set t \<Longrightarrow> split sep t = [t]"
  by (induction t) auto

lemma split_single: "split sep xs = [x] \<Longrightarrow> x = xs \<and> sep \<notin> set xs"
proof (induction xs arbitrary: x)
  case Nil
  then show ?case by simp
next
  case (Cons c cs)
  then show ?case
    using split_not_Nil [of sep cs]
    by (cases "split sep cs") (auto split: if_splits)
qed

lemma pattern_step:
  assumes "isLabel l"
  shows "dns_hostname_pattern (l @ dot # r) \<longleftrightarrow> dns_hostname_pattern r \<or> isTLD r"
proof -
  have sp: "split dot (l @ dot # r) = l # split dot r"
    using assms by (simp add: split_at_sep isLabel_no_dot)
  obtain p ps where ps: "split dot r = p # ps"
    using split_not_Nil [of dot r] by (cases "split dot r") auto
  show ?thesis
  proof (cases ps)
    case Nil
    with ps have "p = r" "dot \<notin> set r" using split_single [of dot r p] by auto
    with ps Nil assms show ?thesis
      by (simp add: dns_hostname_pattern_def sp)
  next
    case (Cons q qs)
    have "\<not> isTLD r"
    proof
      assume "isTLD r"
      then have "split dot r = [r]" by (simp add: split_no_sep isTLD_no_dot)
      with ps Cons show False by simp
    qed
    with ps Cons assms show ?thesis
      by (simp add: dns_hostname_pattern_def sp)
  qed
qed

lemma pattern_head:
  assumes "dns_hostname_pattern d"
  shows "\<exists>l r. isLabel l \<and> d = l @ dot # r"
proof -
  have "dot \<in> set d"
  proof (rule ccontr)
    assume "dot \<notin> set d"
    then have "split dot d = [d]" by (rule split_no_sep)
    with assms show False by (simp add: dns_hostname_pattern_def)
  qed
  then obtain l r where d: "d = l @ dot # r" and l: "dot \<notin> set l"
    by (auto dest: split_list_first)
  have sp: "split dot d = l # split dot r"
    using l by (simp add: d split_at_sep)
  have "split dot r \<noteq> []" by (rule split_not_Nil)
  with assms sp have "isLabel l"
    by (simp add: dns_hostname_pattern_def)
  with d show ?thesis by blast
qed

lemma hostname_then_LF_iff: "hostname_then_LF d \<longleftrightarrow> (\<exists>h. d = h @ [LF] \<and> dns_hostname_pattern h)"
proof
  assume "hostname_then_LF d"
  then have "d = butlast d @ [LF]" "dns_hostname_pattern (butlast d)"
    using append_butlast_last_id [of d] by (auto simp: hostname_then_LF_def)
  then show "\<exists>h. d = h @ [LF] \<and> dns_hostname_pattern h" by blast
next
  assume "\<exists>h. d = h @ [LF] \<and> dns_hostname_pattern h"
  then show "hostname_then_LF d" by (auto simp: hostname_then_LF_def)
qed

lemma accepted_step:
  assumes "isLabel l"
  shows "dns_hostname_pattern (l @ dot # r) \<or> hostname_then_LF (l @ dot # r)
         \<longleftrightarrow> (dns_hostname_pattern r \<or> hostname_then_LF r) \<or> tld_end r"
proof -
  have a: "hostname_then_LF (l @ dot # r) \<longleftrightarrow> (\<exists>h. r = h @ [LF] \<and> dns_hostname_pattern (l @ dot # h))"
  proof
    assume "hostname_then_LF (l @ dot # r)"
    then obtain h where h: "l @ dot # r = h @ [LF]" "dns_hostname_pattern h"
      by (auto simp: hostname_then_LF_iff)
    from h(2) obtain l' r' where l': "isLabel l'" "h = l' @ dot # r'"
      using pattern_head by blast
    have "l = l' \<and> r = r' @ [LF]"
    proof -
      have e: "l @ dot # r = l' @ dot # (r' @ [LF])" using h(1) l'(2) by simp
      have "takeWhile (\<lambda>c. c \<noteq> dot) (l @ dot # r) = l"
        using isLabel_no_dot [OF assms] by (auto simp: takeWhile_tail)
      moreover have "takeWhile (\<lambda>c. c \<noteq> dot) (l' @ dot # (r' @ [LF])) = l'"
        using isLabel_no_dot [OF l'(1)] by (auto simp: takeWhile_tail)
      ultimately have "l = l'" using e by simp
      with e show ?thesis by simp
    qed
    with h l' show "\<exists>h. r = h @ [LF] \<and> dns_hostname_pattern (l @ dot # h)" by auto
  next
    assume "\<exists>h. r = h @ [LF] \<and> dns_hostname_pattern (l @ dot # h)"
    then obtain h where "r = h @ [LF]" "dns_hostname_pattern (l @ dot # h)" by blast
    then have "l @ dot # r = (l @ dot # h) @ [LF] \<and> dns_hostname_pattern (l @ dot # h)" by simp
    then show "hostname_then_LF (l @ dot # r)"
      unfolding hostname_then_LF_iff by blast
  qed
  have b: "(\<exists>h. r = h @ [LF] \<and> dns_hostname_pattern (l @ dot # h))
           \<longleftrightarrow> (\<exists>h. r = h @ [LF] \<and> (dns_hostname_pattern h \<or> isTLD h))"
    by (simp add: pattern_step [OF assms])
  have c: "hostname_then_LF r \<longleftrightarrow> (\<exists>h. r = h @ [LF] \<and> dns_hostname_pattern h)"
    by (rule hostname_then_LF_iff)
  have d: "tld_end r \<longleftrightarrow> isTLD r \<or> (\<exists>t. r = t @ [LF] \<and> isTLD t)"
    by (rule tld_end_iff)
  have e: "dns_hostname_pattern (l @ dot # r) \<longleftrightarrow> dns_hostname_pattern r \<or> isTLD r"
    by (rule pattern_step [OF assms])
  have f: "hostname_then_LF (l @ dot # r) \<longleftrightarrow> (\<exists>h. r = h @ [LF] \<and> (dns_hostname_pattern h \<or> isTLD h))"
    using a b by simp
  show ?thesis
    unfolding c d e f by blast
qed

lemma domainRegex_refines:
  "groups_then_tld d \<longleftrightarrow> dns_hostname_pattern d \<or> hostname_then_LF d"
proof (induction d rule: groups_then_tld.induct)
  case (1 s)
  show ?case
  proof (cases "label_dot s")
    case None
    have "\<not> (dns_hostname_pattern s \<or> hostname_then_LF s)"
    proof
      assume "dns_hostname_pattern s \<or> hostname_then_LF s"
      then have "\<exists>l r. isLabel l \<and> s = l @ dot # r"
      proof
        assume "dns_hostname_pattern s"
        then show ?thesis by (rule pattern_head)
      next
        assume "hostname_then_LF s"
        then obtain h where h: "s = h @ [LF]" "dns_hostname_pattern h"
          by (auto simp: hostname_then_LF_iff)
        from h(2) obtain l r where "isLabel l" "h = l @ dot # r"
          using pattern_head by blast
        with h(1) have "isLabel l \<and> s = l @ dot # (r @ [LF])" by simp
        then show ?thesis by blast
      qed
      then obtain l r where "isLabel l" "s = l @ dot # r" by blast
      then have "label_dot s = Some r" by (auto simp: label_dot_iff)
      with None show False by simp
    qed
    with None show ?thesis by simp
  next
    case (Some r)
    then obtain l where l: "isLabel l" "s = l @ dot # r"
      by (auto simp: label_dot_iff)
    have "groups_then_tld s \<longleftrightarrow> groups_then_tld r \<or> tld_end r"
      using Some by simp
    also have "\<dots> \<longleftrightarrow> (dns_hostname_pattern r \<or> hostname_then_LF r) \<or> tld_end r"
      using "1.IH" [OF Some] by simp
    also have "\<dots> \<longleftrightarrow> dns_hostname_pattern s \<or> hostname_then_LF s"
      using accepted_step [OF l(1), of r] l(2) by simp
    finally show ?thesis .
  qed
qed


lemma domainRegex_hasMatch_iff:
  "domainRegex_hasMatch d \<longleftrightarrow> dns_hostname_pattern d \<or> hostname_then_LF d"
  unfolding domainRegex_hasMatch_def by (rule domainRegex_refines)

subsection \<open>New credentials: the domain\<close>




subsection \<open>New credentials: the username and the password\<close>




subsection \<open>Who writes the last known address\<close>

lemma echoPage_captured: "ipRegex_captured (asciiFromUtf8 (data echoPage)) = Some (qs ''198.51.100.7'')"
  by (simp add: echoPage_def utf8_def asciiFromUtf8_def qs_def ipRegex_at_def isSpace_def
      lessThanSign_def)

lemma checkPublicIP_lastIP: "checkPublicIP now s = Inr s' \<Longrightarrow> m_lastIP s' = m_lastIP s"
  by (auto simp: checkPublicIP_def split: if_splits)

lemma updateDNSService_lastIP:
  "updateDNSService now s = Inr s' \<Longrightarrow>
     m_lastIP s' = m_lastIP s \<and> (\<exists>url. downloads s' = downloads s @ [UpdateDNS url] \<and> myip url = m_lastIP s)"
  by (auto simp: updateDNSService_def getUpdateUrl_def split: if_splits sum.splits Service.splits)

lemma processIPUpdateReply_lastIP:
  assumes "processIPUpdateReply reply s = Inr s'"
  shows "(m_lastIP s' = m_lastIP s \<or> m_lastIP s' = Null)
       \<and> (takeWhile (\<lambda>c. c \<noteq> space) reply \<noteq> qs ''good''
            \<and> takeWhile (\<lambda>c. c \<noteq> space) reply \<noteq> qs ''nochg'' \<longrightarrow> m_lastIP s' = Null)"
proof -
  define code where "code = takeWhile (\<lambda>c. c \<noteq> space) reply"
  define t where "t = s\<lparr>m_ipCheckTimer := False, m_lastIP := Null\<rparr>"
  have eq: "processIPUpdateReply reply s =
      (if code = qs ''good'' \<or> code = qs ''nochg''
       then Inr (addMessage DnsUpdated INFO s)
       else if code = qs ''911'' \<or> code = qs ''dnserr''
       then Inr ((addMessage ServiceUnavailable CRITICAL s)\<lparr>m_lastIP := Null\<rparr>)
       else if code = qs ''nohost''
       then Inr ((addMessage HostnameUnknown CRITICAL t)\<lparr>m_state := INVALID_CREDS\<rparr>)
       else if code = qs ''badauth''
       then Inr ((addMessage BadAuth CRITICAL t)\<lparr>m_state := INVALID_CREDS\<rparr>)
       else if code = qs ''badagent''
       then Inr ((addMessage Blacklisted CRITICAL t)\<lparr>m_state := FATAL\<rparr>)
       else if code = qs ''!donator''
       then Inr ((addMessage NotDonator CRITICAL t)\<lparr>m_state := FATAL\<rparr>)
       else if code = qs ''abuse''
       then Inr ((addMessage Abuse CRITICAL t)\<lparr>m_state := FATAL\<rparr>)
       else Inr t)"
    unfolding processIPUpdateReply_def first_split Let_def code_def t_def by simp
  have t: "m_lastIP t = Null"
    by (simp add: t_def)
  consider (ok) "code = qs ''good'' \<or> code = qs ''nochg''"
    | (transient) "\<not> (code = qs ''good'' \<or> code = qs ''nochg'')"
        "code = qs ''911'' \<or> code = qs ''dnserr''"
    | (error) "\<not> (code = qs ''good'' \<or> code = qs ''nochg'')"
        "\<not> (code = qs ''911'' \<or> code = qs ''dnserr'')"
    by blast
  then have "(m_lastIP s' = m_lastIP s \<or> m_lastIP s' = Null)
       \<and> (code \<noteq> qs ''good'' \<and> code \<noteq> qs ''nochg'' \<longrightarrow> m_lastIP s' = Null)"
  proof cases
    case ok
    with assms have "s' = addMessage DnsUpdated INFO s"
      unfolding eq by simp
    with ok show ?thesis by (auto simp: addMessage_def)
  next
    case transient
    with assms have "s' = (addMessage ServiceUnavailable CRITICAL s)\<lparr>m_lastIP := Null\<rparr>"
      unfolding eq by simp
    then show ?thesis by simp
  next
    case error
    with assms have "\<exists>msg st. s' = (addMessage msg CRITICAL t)\<lparr>m_state := st\<rparr> \<or> s' = t"
      unfolding eq by (simp split: if_splits) blast+
    with t show ?thesis by (auto simp: addMessage_def)
  qed
  then show ?thesis by (simp add: code_def)
qed

lemma updateCredentials_lastIP:
  assumes "updateCredentials pref now s = Inr s'"
  shows "(m_lastIP s' = m_lastIP s \<or> m_lastIP s' = Null)
       \<and> (logger s' \<noteq> logger s \<longrightarrow> m_lastIP s' = Null)"
proof (cases "m_state s = FATAL")
  case True
  with assms have "s' = s"
    by (simp add: updateCredentials_unfold)
  then show ?thesis by simp
next
  case nf: False
  let ?D = "m_domain s \<noteq> getDynDomainName pref \<and> \<not> domainRegex_hasMatch (getDynDomainName pref)"
  let ?U = "m_username s \<noteq> getDynDNSUsername pref \<and> length (getDynDNSUsername pref) < 4"
  let ?P = "m_password s \<noteq> getDynDNSPassword pref \<and> length (getDynDNSPassword pref) < 4"
  consider (d) ?D | (u) "\<not> ?D" ?U | (p) "\<not> ?D" "\<not> ?U" ?P | (ok) "\<not> ?D" "\<not> ?U" "\<not> ?P"
    by blast
  then show ?thesis
  proof cases
    case d
    with assms show ?thesis
      using updateCredentials_domain_rejected [OF nf, of pref now] by auto
  next
    case u
    then have "m_domain s \<noteq> getDynDomainName pref \<longrightarrow> domainRegex_hasMatch (getDynDomainName pref)"
      by blast
    with u assms show ?thesis
      using updateCredentials_username_rejected [OF nf, of pref now] by auto
  next
    case p
    then have "m_domain s \<noteq> getDynDomainName pref \<longrightarrow> domainRegex_hasMatch (getDynDomainName pref)"
      and "m_username s \<noteq> getDynDNSUsername pref \<longrightarrow> 4 \<le> length (getDynDNSUsername pref)"
      by auto
    with p assms show ?thesis
      using updateCredentials_password_rejected [OF nf, of pref now] by auto
  next
    case ok
    then have m: "m_domain s \<noteq> getDynDomainName pref \<longrightarrow> domainRegex_hasMatch (getDynDomainName pref)"
      and u: "m_username s \<noteq> getDynDNSUsername pref \<longrightarrow> 4 \<le> length (getDynDNSUsername pref)"
      and p: "m_password s \<noteq> getDynDNSPassword pref \<longrightarrow> 4 \<le> length (getDynDNSPassword pref)"
      by auto
    from assms have "m_lastIP s' = m_lastIP s \<and> logger s' = logger s"
      unfolding updateCredentials_passed [OF nf m u p] by (auto split: if_splits)
    then show ?thesis by simp
  qed
qed

lemma ipRequestFinished_lastIP:
  assumes "ipRequestFinished fromUtf8 hostAddress now result s = Inr s'"
    and "m_lastIP s' \<noteq> m_lastIP s"
  shows "status result = Success
       \<and> (\<exists>ipStr. ipRegex_captured (fromUtf8 (data result)) = Some ipStr
                  \<and> m_lastIP s' = hostAddress ipStr)
       \<and> m_lastIP s' \<noteq> Null
       \<and> (\<exists>url. downloads s' = downloads s @ [UpdateDNS url] \<and> myip url = m_lastIP s')"
proof -
  from assms have st: "status result = Success"
    by (auto simp: ipRequestFinished_def split: if_splits)
  from assms st obtain ipStr where c: "ipRegex_captured (fromUtf8 (data result)) = Some ipStr"
    by (cases "ipRegex_captured (fromUtf8 (data result))") (auto simp: ipRequestFinished_def)
  from assms st c have n: "hostAddress ipStr \<noteq> Null" "m_lastIP s \<noteq> hostAddress ipStr"
    and u: "updateDNSService now (s\<lparr>m_lastIP := hostAddress ipStr\<rparr>) = Inr s'"
    by (auto simp: ipRequestFinished_def Let_def split: if_splits)
  from updateDNSService_lastIP [OF u] st c n show ?thesis
    by auto
qed


lemma ipUpdateFinished_lastIP:
  "ipUpdateFinished fromUtf8 result s = Inr s' \<Longrightarrow> m_lastIP s' = m_lastIP s \<or> m_lastIP s' = Null"
  using processIPUpdateReply_lastIP [of "fromUtf8 (data result)" s s']
  by (cases "status result = Success") (auto simp: ipUpdateFinished_def)

lemma discovery_example:
  "ipRequestFinished asciiFromUtf8 exampleHostAddress (DateTime 5) echoPage running
     = Inr afterDiscovery"
proof -
  have a: "status echoPage = Success"
    by (simp add: echoPage_def)
  have b: "exampleHostAddress (qs ''198.51.100.7'') = IPv4 0xC6336407"
    by (simp add: exampleHostAddress_def)
  have c: "m_lastIP running \<noteq> IPv4 0xC6336407"
    by (simp add: running_def)
  have d: "updateDNSService (DateTime 5) (running\<lparr>m_lastIP := IPv4 0xC6336407\<rparr>) = Inr afterDiscovery"
    by (simp add: updateDNSService_def getUpdateUrl_def QT_NO_OPENSSL_def running_def
        afterDiscovery_def)
  show ?thesis
    unfolding ipRequestFinished_def echoPage_captured Let_def using a c d by (simp add: b)
qed

text \<open>
  C9, as the code has it. The last known address gets a new value in one place only,
  \<open>ipRequestFinished\<close>: the discovery request has succeeded, the page gave a string that
  \<open>QHostAddress\<close> parsed to an address that is not null and differs from the stored one;
  that address is stored, and in the same call the update request carrying it is handed
  to the download manager, so it is stored before the update, not after it.
  \<open>checkPublicIP\<close> and \<open>updateDNSService\<close> leave it alone. The reply of the provider and
  \<open>updateCredentials\<close> leave it alone or clear it: every reply whose code is neither
  \<open>good\<close> nor \<open>nochg\<close> clears it, and so does every call of \<open>updateCredentials\<close> that
  logs a rejection. (The constructor, which reads it from the preferences, is not part
  of the statement.)
\<close>

theorem lastIP_set_by_discovery_only:
  "(checkPublicIP now s = Inr s' \<longrightarrow> m_lastIP s' = m_lastIP s)
   \<and> (updateDNSService now s = Inr s' \<longrightarrow> m_lastIP s' = m_lastIP s)
   \<and> (updateCredentials pref now s = Inr s' \<longrightarrow>
        (m_lastIP s' = m_lastIP s \<or> m_lastIP s' = Null)
        \<and> (logger s' \<noteq> logger s \<longrightarrow> m_lastIP s' = Null))
   \<and> (processIPUpdateReply reply s = Inr s' \<longrightarrow>
        (m_lastIP s' = m_lastIP s \<or> m_lastIP s' = Null)
        \<and> (takeWhile (\<lambda>c. c \<noteq> space) reply \<noteq> qs ''good''
             \<and> takeWhile (\<lambda>c. c \<noteq> space) reply \<noteq> qs ''nochg'' \<longrightarrow> m_lastIP s' = Null))
   \<and> (ipUpdateFinished fromUtf8 result s = Inr s' \<longrightarrow>
        m_lastIP s' = m_lastIP s \<or> m_lastIP s' = Null)
   \<and> (ipRequestFinished fromUtf8 hostAddress now result s = Inr s' \<and> m_lastIP s' \<noteq> m_lastIP s \<longrightarrow>
        status result = Success
        \<and> (\<exists>ipStr. ipRegex_captured (fromUtf8 (data result)) = Some ipStr
                   \<and> m_lastIP s' = hostAddress ipStr)
        \<and> m_lastIP s' \<noteq> Null
        \<and> (\<exists>url. downloads s' = downloads s @ [UpdateDNS url] \<and> myip url = m_lastIP s'))"
proof (intro conjI impI)
  assume "checkPublicIP now s = Inr s'"
  then show "m_lastIP s' = m_lastIP s" by (rule checkPublicIP_lastIP)
next
  assume "updateDNSService now s = Inr s'"
  then show "m_lastIP s' = m_lastIP s" by (simp add: updateDNSService_lastIP)
next
  assume "updateCredentials pref now s = Inr s'"
  then show "m_lastIP s' = m_lastIP s \<or> m_lastIP s' = Null"
    by (simp add: updateCredentials_lastIP)
next
  assume "updateCredentials pref now s = Inr s'" and "logger s' \<noteq> logger s"
  then show "m_lastIP s' = Null"
    by (simp add: updateCredentials_lastIP)
next
  assume "processIPUpdateReply reply s = Inr s'"
  then show "m_lastIP s' = m_lastIP s \<or> m_lastIP s' = Null"
    by (simp add: processIPUpdateReply_lastIP)
next
  assume "processIPUpdateReply reply s = Inr s'"
    and "takeWhile (\<lambda>c. c \<noteq> space) reply \<noteq> qs ''good''
         \<and> takeWhile (\<lambda>c. c \<noteq> space) reply \<noteq> qs ''nochg''"
  then show "m_lastIP s' = Null"
    using processIPUpdateReply_lastIP [of reply s s'] by blast
next
  assume "ipUpdateFinished fromUtf8 result s = Inr s'"
  then show "m_lastIP s' = m_lastIP s \<or> m_lastIP s' = Null"
    by (rule ipUpdateFinished_lastIP)
next
  assume a: "ipRequestFinished fromUtf8 hostAddress now result s = Inr s' \<and> m_lastIP s' \<noteq> m_lastIP s"
  then have b: "ipRequestFinished fromUtf8 hostAddress now result s = Inr s'"
    and c: "m_lastIP s' \<noteq> m_lastIP s"
    by simp_all
  note r = ipRequestFinished_lastIP [OF b c]
  from r show "status result = Success" by blast
  from r show "\<exists>ipStr. ipRegex_captured (fromUtf8 (data result)) = Some ipStr
                   \<and> m_lastIP s' = hostAddress ipStr" by blast
  from r show "m_lastIP s' \<noteq> Null" by blast
  from r show "\<exists>url. downloads s' = downloads s @ [UpdateDNS url] \<and> myip url = m_lastIP s'"
    by blast
qed

theorem lastIP_set_by_discovery_only_witness:
  "ipRequestFinished asciiFromUtf8 exampleHostAddress (DateTime 5) echoPage running
     = Inr afterDiscovery
   \<and> m_lastIP afterDiscovery \<noteq> m_lastIP running
   \<and> status echoPage = Success
   \<and> m_lastIP afterDiscovery \<noteq> Null
   \<and> (\<exists>url. downloads afterDiscovery = downloads running @ [UpdateDNS url]
            \<and> myip url = m_lastIP afterDiscovery)"
proof -
  have a: "m_lastIP afterDiscovery \<noteq> m_lastIP running"
    by (simp add: afterDiscovery_def running_def)
  show ?thesis
    using a discovery_example
      lastIP_set_by_discovery_only [of "DateTime 5" running afterDiscovery
        "storedPrefs running" "[]" asciiFromUtf8 echoPage exampleHostAddress]
    by simp
qed

text \<open>
  C9 as stated fails: the answer of the echo service alone gives the object a new
  address. The update for it has only been requested, no reply has been processed and
  nothing is logged; when that update then fails in transport the new address stays.
\<close>

theorem lastIP_set_before_update_counterexample:
  "ipRequestFinished asciiFromUtf8 exampleHostAddress (DateTime 5) echoPage running
     = Inr afterDiscovery
   \<and> m_lastIP running = IPv4 0xCB007105
   \<and> m_lastIP afterDiscovery = IPv4 0xC6336407
   \<and> logger afterDiscovery = logger running
   \<and> ipUpdateFinished asciiFromUtf8 failedDownload afterDiscovery = Inr afterDiscovery"
  using discovery_example
  by (simp add: afterDiscovery_def running_def ipUpdateFinished_def failedDownload_def)

end
